theory Spec2Isabelle
  imports Complex_Main
begin

section \<open>The rebound operator of exoplanet: data model\<close>

text \<open>
  The subject is \<^verbatim>\<open>ReboundOp.perform\<close> of
  \<^verbatim>\<open>src/exoplanet/theano_ops/rebound/rebound.py\<close>. Its inputs are three numpy
  arrays: \<^verbatim>\<open>masses\<close> (one axis), \<^verbatim>\<open>coords\<close> (two axes) and
  \<^verbatim>\<open>times\<close> (one axis). Scalars are modelled as \<^typ>\<open>real\<close>: rounding of
  the machine numbers is abstracted. numpy's scalar arithmetic never raises (a zero divisor
  gives a non-finite value and a warning), so \<^verbatim>\<open>**\<close>, \<^verbatim>\<open>/\<close> and
  \<^verbatim>\<open>-\<close> are the total operations of \<^typ>\<open>real\<close>. Where the divisor is
  zero the quotient of the model is not numpy's non-finite value; no theorem below uses
  what that quotient is.
\<close>

datatype error = IndexError | AttributeError | IntegratorError string

definition bind_err :: "error + 'a \<Rightarrow> ('a \<Rightarrow> error + 'b) \<Rightarrow> error + 'b" where
  "bind_err r f = (case r of Inl e \<Rightarrow> Inl e | Inr v \<Rightarrow> f v)"

text \<open>\<^verbatim>\<open>a[i]\<close> on an array of one axis, and \<^verbatim>\<open>a[i, k]\<close> on an array of two
  axes (a list of rows); the indices of the source are never negative.\<close>

definition getitem1 :: "real list \<Rightarrow> nat \<Rightarrow> error + real" where
  "getitem1 a i = (if i < length a then Inr (a ! i) else Inl IndexError)"

definition getitem2 :: "real list list \<Rightarrow> nat \<Rightarrow> nat \<Rightarrow> error + real" where
  "getitem2 a i k =
     (if i < length a \<and> k < length (a ! i) then Inr (a ! i ! k) else Inl IndexError)"

text \<open>\<^verbatim>\<open>list(coords.shape)\<close>: the number of rows and the number of columns.\<close>

definition shape2 :: "real list list \<Rightarrow> nat list" where
  "shape2 a = [length a, (case a of [] \<Rightarrow> 0 | r # _ \<Rightarrow> length r)]"

text \<open>
  The result tensor. \<^verbatim>\<open>np.empty(shape)\<close> allocates without initialising: a cell
  that was never written holds no defined value, which is \<open>None\<close> here.
\<close>

record tensor =
  shape :: "nat list"
  cells :: "nat \<times> nat \<times> nat \<rightharpoonup> real"

definition np_empty :: "nat list \<Rightarrow> tensor" where
  "np_empty s = \<lparr>shape = s, cells = Map.empty\<rparr>"

text \<open>\<^verbatim>\<open>results[i, j, k] = v\<close>: numpy raises IndexError outside the shape.\<close>

definition setitem3 :: "tensor \<Rightarrow> nat \<Rightarrow> nat \<Rightarrow> nat \<Rightarrow> real \<Rightarrow> error + tensor" where
  "setitem3 r i j k v =
     (case shape r of
        [a, b, c] \<Rightarrow>
          if i < a \<and> j < b \<and> k < c then Inr (r\<lparr>cells := (cells r)((i, j, k) \<mapsto> v)\<rparr>)
          else Inl IndexError
      | _ \<Rightarrow> Inl IndexError)"

subsection \<open>The simulation library\<close>

text \<open>
  A particle of the simulation and the simulation object. The fields are the attributes
  \<^verbatim>\<open>m, x, y, z, vx, vy, vz\<close> of a particle and \<^verbatim>\<open>G, t, particles\<close> of a
  simulation, with a prefix.
\<close>

record particle =
  p_m :: real
  p_x :: real
  p_y :: real
  p_z :: real
  p_vx :: real
  p_vy :: real
  p_vz :: real

record simulation =
  sim_G :: real
  sim_t :: real
  sim_particles :: "particle list"

text \<open>
  Modelled from the spec: the third-party N-body library is not part of the repository.
  Its interface is construct-simulation, set-gravitational-constant, add-particle,
  advance-simulation-by and the reading of the current state of every particle. A new
  simulation holds no particle; its clock is at 0 and its gravitational constant is 1, the
  defaults of the library (the constant is overwritten before it is used).
\<close>

definition Simulation :: simulation where
  "Simulation = \<lparr>sim_G = 1, sim_t = 0, sim_particles = []\<rparr>"

text \<open>Modelled from the spec: add-particle appends one particle to the simulation.\<close>

definition sim_add :: "simulation \<Rightarrow> particle \<Rightarrow> simulation" where
  "sim_add sim p = sim\<lparr>sim_particles := sim_particles sim @ [p]\<rparr>"

text \<open>
  The numerical method is a black box: an integrator maps a simulation and a time
  difference to the new states of the particles, or fails.
\<close>

type_synonym integrator = "simulation \<Rightarrow> real \<Rightarrow> error + particle list"

text \<open>
  Modelled from the spec: advance-simulation-by moves the clock of the simulation by the
  given difference and replaces the particle states by what the integrator computes; a
  failure of the integrator is raised.
\<close>

definition integrate :: "integrator \<Rightarrow> simulation \<Rightarrow> real \<Rightarrow> error + simulation" where
  "integrate phys sim dt =
     bind_err (phys sim dt)
       (\<lambda>ps. Inr (sim\<lparr>sim_t := sim_t sim + dt, sim_particles := ps\<rparr>))"

text \<open>\<^verbatim>\<open>getattr(part, coord)\<close>.\<close>

definition getattr :: "particle \<Rightarrow> string \<Rightarrow> error + real" where
  "getattr part coord =
     (if coord = ''x'' then Inr (p_x part)
      else if coord = ''y'' then Inr (p_y part)
      else if coord = ''z'' then Inr (p_z part)
      else if coord = ''vx'' then Inr (p_vx part)
      else if coord = ''vy'' then Inr (p_vy part)
      else if coord = ''vz'' then Inr (p_vz part)
      else if coord = ''m'' then Inr (p_m part)
      else Inl AttributeError)"

section \<open>ReboundOp.perform\<close>

text \<open>The keyword arguments \<^verbatim>\<open>x=coords[i, 0], ..., vz=coords[i, 5]\<close> of one call of
  \<^verbatim>\<open>sim.add\<close>, read from left to right, with the mass already computed.\<close>

definition particle_at :: "real \<Rightarrow> real list list \<Rightarrow> nat \<Rightarrow> error + particle" where
  "particle_at mass coords i =
     bind_err (getitem2 coords i 0) (\<lambda>x0.
     bind_err (getitem2 coords i 1) (\<lambda>y0.
     bind_err (getitem2 coords i 2) (\<lambda>z0.
     bind_err (getitem2 coords i 3) (\<lambda>vx0.
     bind_err (getitem2 coords i 4) (\<lambda>vy0.
     bind_err (getitem2 coords i 5) (\<lambda>vz0.
       Inr \<lparr>p_m = mass, p_x = x0, p_y = y0, p_z = z0,
            p_vx = vx0, p_vy = vy0, p_vz = vz0\<rparr>))))))"

text \<open>The loop \<^verbatim>\<open>for i in range(1, num)\<close> of lines 44 to 48, over the list of
  indices still to come.\<close>

fun add_secondaries ::
  "real list \<Rightarrow> real list list \<Rightarrow> nat list \<Rightarrow> simulation \<Rightarrow> error + simulation" where
  "add_secondaries masses coords [] sim = Inr sim"
| "add_secondaries masses coords (i # is) sim =
     bind_err (getitem1 masses i) (\<lambda>mi.
     bind_err (getitem1 masses 0) (\<lambda>m0.
     bind_err (particle_at (mi / m0) coords i) (\<lambda>p.
       add_secondaries masses coords is (sim_add sim p))))"

text \<open>Lines 40 to 48: the simulation is created and populated.\<close>

definition populate :: "real list \<Rightarrow> real list list \<Rightarrow> error + simulation" where
  "populate masses coords =
     (let num = length masses;
          sim = Simulation
      in bind_err (getitem1 masses 0) (\<lambda>m0.
         let sim = sim\<lparr>sim_G := m0 ^ 2\<rparr>
         in bind_err (particle_at 1 coords 0) (\<lambda>p.
            add_secondaries masses coords [1..<num] (sim_add sim p))))"

text \<open>\<^verbatim>\<open>"x y z vx vy vz".split()\<close>.\<close>

definition coord_names :: "string list" where
  "coord_names = [''x'', ''y'', ''z'', ''vx'', ''vy'', ''vz'']"

text \<open>Lines 53 and 54: the loop over the coordinate names, \<open>k\<close> counting from the
  given start.\<close>

fun write_coords ::
  "nat \<Rightarrow> nat \<Rightarrow> particle \<Rightarrow> nat \<Rightarrow> string list \<Rightarrow> tensor \<Rightarrow> error + tensor" where
  "write_coords i j part k [] results = Inr results"
| "write_coords i j part k (coord # cs) results =
     bind_err (getattr part coord) (\<lambda>v.
     bind_err (setitem3 results i j k v) (\<lambda>results'.
       write_coords i j part (Suc k) cs results'))"

text \<open>Lines 52 to 54: the loop over \<^verbatim>\<open>enumerate(sim.particles)\<close>.\<close>

fun write_particles :: "nat \<Rightarrow> nat \<Rightarrow> particle list \<Rightarrow> tensor \<Rightarrow> error + tensor" where
  "write_particles i j [] results = Inr results"
| "write_particles i j (part # ps) results =
     bind_err (write_coords i j part 0 coord_names results) (\<lambda>results'.
       write_particles i (Suc j) ps results')"

text \<open>Lines 50 to 54: the loop over \<^verbatim>\<open>enumerate(times)\<close>. The simulation is
  returned with the tensor, so that the state it ends in can be spoken about.\<close>

fun time_loop ::
  "integrator \<Rightarrow> nat \<Rightarrow> real list \<Rightarrow> simulation \<Rightarrow> tensor \<Rightarrow> error + simulation \<times> tensor"
  where
  "time_loop phys i [] sim results = Inr (sim, results)"
| "time_loop phys i (t # ts) sim results =
     bind_err (integrate phys sim (t - sim_t sim)) (\<lambda>sim'.
     bind_err (write_particles i 0 (sim_particles sim') results) (\<lambda>results'.
       time_loop phys (Suc i) ts sim' results'))"

text \<open>The body of \<^verbatim>\<open>perform\<close>, lines 35 to 54, as a function of the three inputs
  (\<open>ts\<close> is the array \<^verbatim>\<open>times\<close>): the value that line 56 stores.\<close>

definition evaluate ::
  "integrator \<Rightarrow> real list \<Rightarrow> real list list \<Rightarrow> real list \<Rightarrow> error + tensor" where
  "evaluate phys masses coords ts =
     (let results = np_empty ([length ts] @ shape2 coords)
      in bind_err (populate masses coords) (\<lambda>sim.
         bind_err (time_loop phys 0 ts sim results) (\<lambda>(sim', results').
           Inr results')))"



section \<open>Notions used in the statements\<close>

text \<open>The particle that one call of \<^verbatim>\<open>sim.add\<close> builds from a mass and a row
  of \<^verbatim>\<open>coords\<close>.\<close>

definition row_particle :: "real \<Rightarrow> real list \<Rightarrow> particle" where
  "row_particle mass r =
     \<lparr>p_m = mass, p_x = r ! 0, p_y = r ! 1, p_z = r ! 2, p_vx = r ! 3, p_vy = r ! 4, p_vz = r ! 5\<rparr>"

text \<open>The state vector of a particle, in the order of \<^const>\<open>coord_names\<close>.\<close>

definition state_vector :: "particle \<Rightarrow> real list" where
  "state_vector part = [p_x part, p_y part, p_z part, p_vx part, p_vy part, p_vz part]"

text \<open>The particles of the populated simulation, in closed form.\<close>

definition expected_particles :: "real list \<Rightarrow> real list list \<Rightarrow> particle list" where
  "expected_particles masses coords =
     map (\<lambda>i. row_particle (if i = 0 then 1 else masses ! i / masses ! 0) (coords ! i))
       [0..<length masses]"

text \<open>The effect on the tensor of the read-out of one particle, of a list of particles
  numbered from \<open>j0\<close>, and of a list of simulations numbered from \<open>i0\<close>.\<close>

definition put_state :: "nat \<Rightarrow> nat \<Rightarrow> particle \<Rightarrow> tensor \<Rightarrow> tensor" where
  "put_state i j part r =
     r\<lparr>cells := (\<lambda>(i', j', k').
          if i' = i \<and> j' = j \<and> k' < 6 then Some (state_vector part ! k')
          else cells r (i', j', k'))\<rparr>"

definition put_particles :: "nat \<Rightarrow> nat \<Rightarrow> particle list \<Rightarrow> tensor \<Rightarrow> tensor" where
  "put_particles i j0 ps r =
     r\<lparr>cells := (\<lambda>(i', j', k').
          if i' = i \<and> j0 \<le> j' \<and> j' < j0 + length ps \<and> k' < 6
          then Some (state_vector (ps ! (j' - j0)) ! k')
          else cells r (i', j', k'))\<rparr>"

definition put_steps :: "nat \<Rightarrow> simulation list \<Rightarrow> tensor \<Rightarrow> tensor" where
  "put_steps i0 ss r =
     r\<lparr>cells := (\<lambda>(i', j', k').
          if i0 \<le> i' \<and> i' < i0 + length ss \<and> j' < length (sim_particles (ss ! (i' - i0))) \<and> k' < 6
          then Some (state_vector (sim_particles (ss ! (i' - i0)) ! j') ! k')
          else cells r (i', j', k'))\<rparr>"

text \<open>The states the simulation passes through: the loop of lines 50 and 51 without the
  read-out. The \<open>i\<close>-th element is the simulation after the advance to the
  \<open>i\<close>-th requested time.\<close>

fun advances :: "integrator \<Rightarrow> simulation \<Rightarrow> real list \<Rightarrow> error + simulation list" where
  "advances phys sim [] = Inr []"
| "advances phys sim (t # ts) =
     bind_err (integrate phys sim (t - sim_t sim)) (\<lambda>sim'.
     bind_err (advances phys sim' ts) (\<lambda>ss. Inr (sim' # ss)))"

text \<open>The inputs the operator is meant for: at least one mass, one row of
  \<^verbatim>\<open>coords\<close> for each mass, six columns.\<close>

definition well_shaped :: "real list \<Rightarrow> real list list \<Rightarrow> bool" where
  "well_shaped masses coords \<longleftrightarrow>
     masses \<noteq> [] \<and> length coords = length masses \<and> (\<forall>r\<in>set coords. length r = 6)"

text \<open>An integrator that neither adds nor removes particles.\<close>

definition keeps_count :: "integrator \<Rightarrow> bool" where
  "keeps_count phys \<longleftrightarrow>
     (\<forall>sim dt ps. phys sim dt = Inr ps \<longrightarrow> length ps = length (sim_particles sim))"

text \<open>The motion with no force: every particle moves uniformly. It is the motion of a lone
  particle, and the integrator of the examples below.\<close>

definition drift :: "real \<Rightarrow> particle \<Rightarrow> particle" where
  "drift dt p = p\<lparr>p_x := p_x p + p_vx p * dt,
                  p_y := p_y p + p_vy p * dt,
                  p_z := p_z p + p_vz p * dt\<rparr>"

definition free_drift :: integrator where
  "free_drift sim dt = Inr (map (drift dt) (sim_particles sim))"

text \<open>An integrator that returns for every simulation and every time difference.\<close>

definition never_fails :: "integrator \<Rightarrow> bool" where
  "never_fails phys \<longleftrightarrow> (\<forall>sim dt. \<exists>ps. phys sim dt = Inr ps)"

text \<open>An integrator that refuses to go back in time: an example of one that can fail.\<close>

definition forward_only :: integrator where
  "forward_only sim dt =
     (if dt < 0 then Inl (IntegratorError ''backward'') else free_drift sim dt)"

text \<open>An integrator that moves a lone particle uniformly: with one particle there is
  no force.\<close>

definition inertial :: "integrator \<Rightarrow> bool" where
  "inertial phys \<longleftrightarrow>
     (\<forall>sim dt. length (sim_particles sim) = 1 \<longrightarrow> phys sim dt = free_drift sim dt)"

text \<open>Reordering a list by a list of indices, the lists of indices that are permutations
  of \<open>0, ..., n - 1\<close>, and a simulation with its particles reordered.\<close>

definition permute :: "nat list \<Rightarrow> 'a list \<Rightarrow> 'a list" where
  "permute \<sigma> xs = map (\<lambda>i. xs ! i) \<sigma>"

definition is_perm :: "nat list \<Rightarrow> nat \<Rightarrow> bool" where
  "is_perm \<sigma> n \<longleftrightarrow> distinct \<sigma> \<and> set \<sigma> = {..<n}"

definition perm_sim :: "nat list \<Rightarrow> simulation \<Rightarrow> simulation" where
  "perm_sim \<sigma> sim = sim\<lparr>sim_particles := permute \<sigma> (sim_particles sim)\<rparr>"

text \<open>An integrator that treats all particles alike: reordering the particles of the
  simulation reorders its result in the same way.\<close>

definition equivariant :: "integrator \<Rightarrow> bool" where
  "equivariant phys \<longleftrightarrow>
     (\<forall>\<sigma> sim dt. is_perm \<sigma> (length (sim_particles sim)) \<longrightarrow>
        phys (perm_sim \<sigma> sim) dt = map_sum id (permute \<sigma>) (phys sim dt))"

text \<open>One step of the symplectic Euler method under Newtonian gravity: an example of an
  integrator that feels the gravitational constant and the masses.\<close>

definition kick_drift :: integrator where
  "kick_drift sim dt =
     Inr (map (\<lambda>p.
        let acc = (\<lambda>d. \<Sum>q\<leftarrow>sim_particles sim.
                   let r2 = (p_x q - p_x p) ^ 2 + (p_y q - p_y p) ^ 2 + (p_z q - p_z p) ^ 2
                   in if r2 = 0 then 0 else sim_G sim * p_m q * d q p / (r2 * sqrt r2));
            vx' = p_vx p + acc (\<lambda>q p. p_x q - p_x p) * dt;
            vy' = p_vy p + acc (\<lambda>q p. p_y q - p_y p) * dt;
            vz' = p_vz p + acc (\<lambda>q p. p_z q - p_z p) * dt
        in p\<lparr>p_x := p_x p + vx' * dt, p_y := p_y p + vy' * dt, p_z := p_z p + vz' * dt,
             p_vx := vx', p_vy := vy', p_vz := vz'\<rparr>) (sim_particles sim))"


section \<open>Basic facts\<close>

lemma bind_err_Inl: "bind_err (Inl e) f = Inl e"
  by (simp add: bind_err_def)

lemma bind_err_Inr: "bind_err (Inr v) f = f v"
  by (simp add: bind_err_def)

lemma bind_err_eq_Inr: "bind_err r f = Inr y \<longleftrightarrow> (\<exists>v. r = Inr v \<and> f v = Inr y)"
  by (cases r) (simp_all add: bind_err_def)

lemma bind_err_eq_Inl:
  "bind_err r f = Inl e \<longleftrightarrow> r = Inl e \<or> (\<exists>v. r = Inr v \<and> f v = Inl e)"
  by (cases r) (simp_all add: bind_err_def)

subsection \<open>Populating the simulation\<close>

lemma particle_at_row:
  "i < length coords \<Longrightarrow> 6 \<le> length (coords ! i) \<Longrightarrow>
   particle_at mass coords i = Inr (row_particle mass (coords ! i))"
proof -
  assume i: "i < length coords" and six: "6 \<le> length (coords ! i)"
  have g: "getitem2 coords i k = Inr (coords ! i ! k)" if "k < 6" for k
    using i six that by (simp add: getitem2_def)
  show ?thesis
    by (simp add: particle_at_def g bind_err_Inr row_particle_def)
qed

lemma add_secondaries_rows:
  "masses \<noteq> [] \<Longrightarrow>
   \<forall>i\<in>set is. i < length masses \<and> i < length coords \<and> 6 \<le> length (coords ! i) \<Longrightarrow>
   add_secondaries masses coords is sim =
     Inr (sim\<lparr>sim_particles := sim_particles sim @
            map (\<lambda>i. row_particle (masses ! i / masses ! 0) (coords ! i)) is\<rparr>)"
proof (induction "is" arbitrary: sim)
  case Nil
  then show ?case by simp
next
  case (Cons i "is")
  from Cons.prems have i: "i < length masses" "i < length coords" "6 \<le> length (coords ! i)"
    and rest: "\<forall>i\<in>set is. i < length masses \<and> i < length coords \<and> 6 \<le> length (coords ! i)"
    by simp_all
  from Cons.prems(1) have m0: "getitem1 masses 0 = Inr (masses ! 0)"
    by (simp add: getitem1_def)
  from i have mi: "getitem1 masses i = Inr (masses ! i)"
    by (simp add: getitem1_def)
  show ?case
    by (simp add: m0 mi bind_err_Inr particle_at_row i Cons.IH [OF Cons.prems(1) rest] sim_add_def)
qed

lemma populate_rows:
  assumes "masses \<noteq> []" "length masses \<le> length coords"
    and "\<forall>i<length masses. 6 \<le> length (coords ! i)"
  shows "populate masses coords =
     Inr \<lparr>sim_G = (masses ! 0) ^ 2, sim_t = 0, sim_particles = expected_particles masses coords\<rparr>"
proof -
  have m0: "getitem1 masses 0 = Inr (masses ! 0)"
    using assms(1) by (simp add: getitem1_def)
  have p0: "particle_at 1 coords 0 = Inr (row_particle 1 (coords ! 0))"
    using assms by (intro particle_at_row) auto
  have rest: "\<forall>i\<in>set [Suc 0..<length masses]. i < length masses \<and> i < length coords \<and> 6 \<le> length (coords ! i)"
    using assms by auto
  have split: "[0..<length masses] = 0 # [Suc 0..<length masses]"
    using assms(1) by (simp add: upt_conv_Cons)
  have "expected_particles masses coords =
      row_particle 1 (coords ! 0) #
        map (\<lambda>i. row_particle (masses ! i / masses ! 0) (coords ! i)) [Suc 0..<length masses]"
    unfolding expected_particles_def split by simp
  then show ?thesis
    by (simp add: populate_def Let_def m0 p0 bind_err_Inr
        add_secondaries_rows [OF assms(1) rest] sim_add_def Simulation_def)
qed

lemma particle_at_Inr:
  assumes "particle_at mass coords i = Inr p"
  shows "i < length coords \<and> 6 \<le> length (coords ! i)"
proof -
  from assms obtain v where "getitem2 coords i 5 = Inr v"
    by (auto simp: particle_at_def bind_err_eq_Inr)
  then show ?thesis
    by (auto simp: getitem2_def split: if_splits)
qed

lemma add_secondaries_Inr:
  "add_secondaries masses coords is sim = Inr sim' \<Longrightarrow>
   \<forall>i\<in>set is. i < length masses \<and> i < length coords \<and> 6 \<le> length (coords ! i)"
proof (induction "is" arbitrary: sim)
  case Nil
  then show ?case by simp
next
  case (Cons i "is")
  from Cons.prems obtain mi m0 p where
    mi: "getitem1 masses i = Inr mi" and p: "particle_at (mi / m0) coords i = Inr p"
    and rest: "add_secondaries masses coords is (sim_add sim p) = Inr sim'"
    by (auto simp: bind_err_eq_Inr)
  from mi have "i < length masses"
    by (auto simp: getitem1_def split: if_splits)
  with particle_at_Inr [OF p] Cons.IH [OF rest] show ?case by simp
qed

lemma populate_Inr_shape:
  assumes "populate masses coords = Inr sim"
  shows "masses \<noteq> [] \<and> length masses \<le> length coords \<and>
    (\<forall>i<length masses. 6 \<le> length (coords ! i))"
proof -
  from assms obtain m0 p sim1 where
    m0: "getitem1 masses 0 = Inr m0" and p: "particle_at 1 coords 0 = Inr p"
    and rest: "add_secondaries masses coords [1..<length masses] sim1 = Inr sim"
    by (auto simp: populate_def Let_def bind_err_eq_Inr)
  from m0 have ne: "masses \<noteq> []"
    by (auto simp: getitem1_def split: if_splits)
  have row: "i < length coords \<and> 6 \<le> length (coords ! i)" if "i < length masses" for i
  proof (cases "i = 0")
    case True
    with particle_at_Inr [OF p] show ?thesis by simp
  next
    case False
    with that have "i \<in> set [1..<length masses]" by simp
    with add_secondaries_Inr [OF rest] show ?thesis by blast
  qed
  have "length masses \<le> length coords"
  proof (rule ccontr)
    assume "\<not> length masses \<le> length coords"
    then have "length coords < length masses" by simp
    from row [OF this] show False by simp
  qed
  with ne row show ?thesis by blast
qed

lemma populate_Inr:
  assumes "populate masses coords = Inr sim"
  shows "sim = \<lparr>sim_G = (masses ! 0) ^ 2, sim_t = 0,
    sim_particles = expected_particles masses coords\<rparr>"
proof -
  from populate_Inr_shape [OF assms]
  have "populate masses coords = Inr \<lparr>sim_G = (masses ! 0) ^ 2, sim_t = 0,
    sim_particles = expected_particles masses coords\<rparr>"
    by (intro populate_rows) auto
  with assms show ?thesis by simp
qed

lemma nth_expected_particles:
  "i < length masses \<Longrightarrow> expected_particles masses coords ! i =
     row_particle (if i = 0 then 1 else masses ! i / masses ! 0) (coords ! i)"
  by (simp add: expected_particles_def)

lemma length_expected_particles: "length (expected_particles masses coords) = length masses"
  by (simp add: expected_particles_def)

lemma shape2_rows: "coords \<noteq> [] \<Longrightarrow> \<forall>r\<in>set coords. length r = c \<Longrightarrow> shape2 coords = [length coords, c]"
  by (cases coords) (simp_all add: shape2_def)

subsection \<open>The read-out\<close>

lemma setitem3_Inr:
  "setitem3 r i j k v = Inr r' \<Longrightarrow> r' = r\<lparr>cells := (cells r)((i, j, k) \<mapsto> v)\<rparr>"
  by (auto simp: setitem3_def split: list.splits if_splits)

lemma setitem3_ok:
  "shape r = [a, b, c] \<Longrightarrow> i < a \<Longrightarrow> j < b \<Longrightarrow> k < c \<Longrightarrow>
   setitem3 r i j k v = Inr (r\<lparr>cells := (cells r)((i, j, k) \<mapsto> v)\<rparr>)"
  by (simp add: setitem3_def)

lemma getattr_names:
  "getattr part ''x'' = Inr (p_x part)" "getattr part ''y'' = Inr (p_y part)"
  "getattr part ''z'' = Inr (p_z part)" "getattr part ''vx'' = Inr (p_vx part)"
  "getattr part ''vy'' = Inr (p_vy part)" "getattr part ''vz'' = Inr (p_vz part)"
  by (simp_all add: getattr_def)

lemma six_cases: "k < 6 \<Longrightarrow> k = 0 \<or> k = 1 \<or> k = 2 \<or> k = 3 \<or> k = 4 \<or> k = (5::nat)"
  by arith

lemma write_coords_Inr:
  assumes "write_coords i j part 0 coord_names r = Inr r'"
  shows "r' = put_state i j part r"
proof -
  from assms obtain r1 r2 r3 r4 r5 where
    s: "setitem3 r i j 0 (p_x part) = Inr r1" "setitem3 r1 i j 1 (p_y part) = Inr r2"
       "setitem3 r2 i j 2 (p_z part) = Inr r3" "setitem3 r3 i j 3 (p_vx part) = Inr r4"
       "setitem3 r4 i j 4 (p_vy part) = Inr r5" "setitem3 r5 i j 5 (p_vz part) = Inr r'"
    by (auto simp: coord_names_def getattr_names bind_err_Inr bind_err_eq_Inr numeral_eq_Suc)
  have "cells r' = cells (put_state i j part r)"
  proof (rule ext)
    fix idx :: "nat \<times> nat \<times> nat"
    obtain i' j' k' where idx: "idx = (i', j', k')" by (cases idx)
    show "cells r' idx = cells (put_state i j part r) idx"
      unfolding idx using s [THEN setitem3_Inr]
      by (auto simp: put_state_def state_vector_def dest: six_cases)
  qed
  moreover have "shape r' = shape r" "tensor.more r' = tensor.more r"
    using s [THEN setitem3_Inr] by simp_all
  ultimately show ?thesis
    by (simp add: put_state_def)
qed

lemma write_coords_ok:
  assumes "shape r = [a, b, c]" "i < a" "j < b" "6 \<le> c"
  shows "write_coords i j part 0 coord_names r = Inr (put_state i j part r)"
proof -
  have ok: "setitem3 r0 i j k v = Inr (r0\<lparr>cells := (cells r0)((i, j, k) \<mapsto> v)\<rparr>)"
    if "shape r0 = [a, b, c]" "k < 6" for r0 k v
    using that assms by (simp add: setitem3_def)
  have "\<exists>r'. write_coords i j part 0 coord_names r = Inr r'"
    by (simp add: coord_names_def getattr_names bind_err_Inr ok assms(1))
  then show ?thesis
    using write_coords_Inr by blast
qed

lemma shape_put_state: "shape (put_state i j part r) = shape r"
  by (simp add: put_state_def)

lemma shape_put_particles: "shape (put_particles i j0 ps r) = shape r"
  by (simp add: put_particles_def)

lemma put_particles_Nil: "put_particles i j0 [] r = r"
  by (rule tensor.equality) (auto simp: put_particles_def fun_eq_iff)

lemma put_particles_Cons:
  "put_particles i (Suc j0) ps (put_state i j0 part r) = put_particles i j0 (part # ps) r"
proof -
  have "(if i' = i \<and> Suc j0 \<le> j' \<and> j' < Suc j0 + length ps \<and> k' < 6
          then Some (state_vector (ps ! (j' - Suc j0)) ! k')
          else if i' = i \<and> j' = j0 \<and> k' < 6 then Some (state_vector part ! k')
          else cells r (i', j', k')) =
        (if i' = i \<and> j0 \<le> j' \<and> j' < j0 + length (part # ps) \<and> k' < 6
          then Some (state_vector ((part # ps) ! (j' - j0)) ! k')
          else cells r (i', j', k'))" for i' j' k'
    by (cases "j' = j0") (auto simp: nth_Cons' Suc_diff_Suc less_Suc_eq_le dest: le_neq_implies_less)
  then show ?thesis
    by (simp add: put_particles_def put_state_def fun_eq_iff)
qed

lemma write_particles_Inr:
  "write_particles i j0 ps r = Inr r' \<Longrightarrow> r' = put_particles i j0 ps r"
proof (induction ps arbitrary: j0 r)
  case Nil
  then show ?case by (simp add: put_particles_Nil)
next
  case (Cons part ps)
  from Cons.prems obtain r1 where
    r1: "write_coords i j0 part 0 coord_names r = Inr r1"
    and rest: "write_particles i (Suc j0) ps r1 = Inr r'"
    by (auto simp: bind_err_eq_Inr)
  from r1 have "r1 = put_state i j0 part r" by (rule write_coords_Inr)
  with Cons.IH [OF rest] show ?case by (simp add: put_particles_Cons)
qed

lemma write_particles_ok:
  "shape r = [a, b, c] \<Longrightarrow> i < a \<Longrightarrow> j0 + length ps \<le> b \<Longrightarrow> 6 \<le> c \<Longrightarrow>
   write_particles i j0 ps r = Inr (put_particles i j0 ps r)"
proof (induction ps arbitrary: j0 r)
  case Nil
  then show ?case by (simp add: put_particles_Nil)
next
  case (Cons part ps)
  from Cons.prems have w: "write_coords i j0 part 0 coord_names r = Inr (put_state i j0 part r)"
    by (intro write_coords_ok) auto
  have "write_particles i (Suc j0) ps (put_state i j0 part r) =
      Inr (put_particles i (Suc j0) ps (put_state i j0 part r))"
    using Cons.prems by (intro Cons.IH) (auto simp: shape_put_state)
  then show ?case
    by (simp add: w bind_err_Inr put_particles_Cons)
qed

subsection \<open>The loop over the requested times\<close>

lemma put_steps_Nil: "put_steps i0 [] r = r"
  by (rule tensor.equality) (auto simp: put_steps_def fun_eq_iff)

lemma put_steps_Cons:
  "put_steps (Suc i0) ss (put_particles i0 0 (sim_particles s) r) = put_steps i0 (s # ss) r"
proof (rule tensor.equality)
  show "cells (put_steps (Suc i0) ss (put_particles i0 0 (sim_particles s) r)) =
      cells (put_steps i0 (s # ss) r)"
  proof (rule ext)
    fix idx :: "nat \<times> nat \<times> nat"
    obtain i' j' k' where idx: "idx = (i', j', k')" by (cases idx)
    show "cells (put_steps (Suc i0) ss (put_particles i0 0 (sim_particles s) r)) idx =
      cells (put_steps i0 (s # ss) r) idx"
      unfolding idx
      by (cases "i' = i0")
        (auto simp: put_steps_def put_particles_def nth_Cons' Suc_diff_Suc less_Suc_eq_le
          dest: le_neq_implies_less)
  qed
qed (simp_all add: put_steps_def put_particles_def)

lemma shape_put_steps: "shape (put_steps i0 ss r) = shape r"
  by (simp add: put_steps_def)

lemma time_loop_Inr:
  "time_loop phys i0 ts sim r = Inr (sim', r') \<Longrightarrow>
   \<exists>ss. advances phys sim ts = Inr ss \<and> sim' = last (sim # ss) \<and> r' = put_steps i0 ss r"
proof (induction ts arbitrary: i0 sim r)
  case Nil
  then show ?case by (simp add: put_steps_Nil)
next
  case (Cons t ts)
  from Cons.prems obtain s1 r1 where
    s1: "integrate phys sim (t - sim_t sim) = Inr s1"
    and r1: "write_particles i0 0 (sim_particles s1) r = Inr r1"
    and rest: "time_loop phys (Suc i0) ts s1 r1 = Inr (sim', r')"
    by (auto simp: bind_err_eq_Inr)
  from Cons.IH [OF rest] obtain ss where
    ss: "advances phys s1 ts = Inr ss" "sim' = last (s1 # ss)" "r' = put_steps (Suc i0) ss r1"
    by blast
  from r1 have "r1 = put_particles i0 0 (sim_particles s1) r"
    by (rule write_particles_Inr)
  with ss have "advances phys sim (t # ts) = Inr (s1 # ss) \<and> sim' = last (sim # s1 # ss) \<and>
      r' = put_steps i0 (s1 # ss) r"
    by (simp add: s1 bind_err_Inr put_steps_Cons)
  then show ?case by blast
qed

lemma time_loop_ok:
  "advances phys sim ts = Inr ss \<Longrightarrow> shape r = [a, b, c] \<Longrightarrow> i0 + length ts \<le> a \<Longrightarrow>
   \<forall>s\<in>set ss. length (sim_particles s) \<le> b \<Longrightarrow> 6 \<le> c \<Longrightarrow>
   time_loop phys i0 ts sim r = Inr (last (sim # ss), put_steps i0 ss r)"
proof (induction ts arbitrary: i0 sim r ss)
  case Nil
  then show ?case by (auto simp: put_steps_Nil)
next
  case (Cons t ts)
  from Cons.prems(1) obtain s1 ss' where
    s1: "integrate phys sim (t - sim_t sim) = Inr s1"
    and ss': "advances phys s1 ts = Inr ss'" and ss: "ss = s1 # ss'"
    by (auto simp: bind_err_eq_Inr)
  have w: "write_particles i0 0 (sim_particles s1) r =
      Inr (put_particles i0 0 (sim_particles s1) r)"
    using Cons.prems ss by (intro write_particles_ok) auto
  have "time_loop phys (Suc i0) ts s1 (put_particles i0 0 (sim_particles s1) r) =
      Inr (last (s1 # ss'), put_steps (Suc i0) ss' (put_particles i0 0 (sim_particles s1) r))"
    using Cons.prems ss by (intro Cons.IH [OF ss']) (auto simp: shape_put_particles)
  then show ?case
    by (simp add: s1 w bind_err_Inr put_steps_Cons ss)
qed

lemma advances_length: "advances phys sim ts = Inr ss \<Longrightarrow> length ss = length ts"
  by (induction ts arbitrary: sim ss) (auto simp: bind_err_eq_Inr)




lemma keeps_count_free_drift: "keeps_count free_drift"
  by (auto simp: keeps_count_def free_drift_def)

lemmas run_defs = evaluate_def populate_def Let_def getitem1_def getitem2_def particle_at_def
  bind_err_def sim_add_def Simulation_def integrate_def free_drift_def drift_def coord_names_def
  getattr_def setitem3_def np_empty_def shape2_def


lemma keeps_count_advances:
  "keeps_count phys \<Longrightarrow> advances phys sim ts = Inr ss \<Longrightarrow>
   \<forall>s\<in>set ss. length (sim_particles s) = length (sim_particles sim)"
proof (induction ts arbitrary: sim ss)
  case Nil
  then show ?case by simp
next
  case (Cons t ts)
  from Cons.prems(2) obtain s1 ss' where
    s1: "integrate phys sim (t - sim_t sim) = Inr s1"
    and ss': "advances phys s1 ts = Inr ss'" and ss: "ss = s1 # ss'"
    by (auto simp: bind_err_eq_Inr)
  from s1 Cons.prems(1) have len: "length (sim_particles s1) = length (sim_particles sim)"
    by (auto simp: integrate_def bind_err_eq_Inr keeps_count_def)
  with Cons.IH [OF Cons.prems(1) ss'] show ?case
    by (simp add: ss)
qed

lemma cells_put_steps:
  "i < length ss \<Longrightarrow> j < length (sim_particles (ss ! i)) \<Longrightarrow> k < 6 \<Longrightarrow>
   cells (put_steps 0 ss r) (i, j, k) = Some (state_vector (sim_particles (ss ! i) ! j) ! k)"
  by (simp add: put_steps_def)

lemma cells_put_steps_outside:
  "\<forall>s\<in>set ss. length (sim_particles s) \<le> j \<Longrightarrow>
   cells (put_steps 0 ss r) (i, j, k) = cells r (i, j, k)"
proof -
  assume a: "\<forall>s\<in>set ss. length (sim_particles s) \<le> j"
  have "\<not> j < length (sim_particles (ss ! i))" if "i < length ss"
    using a that by (simp add: not_less)
  then show ?thesis
    by (auto simp: put_steps_def)
qed

lemma evaluate_Inr:
  assumes "evaluate phys masses coords ts = Inr res"
  shows "\<exists>sim0 ss. populate masses coords = Inr sim0 \<and> advances phys sim0 ts = Inr ss \<and>
    res = put_steps 0 ss (np_empty ([length ts] @ shape2 coords))"
proof -
  from assms obtain sim0 sim' where
    sim0: "populate masses coords = Inr sim0"
    and loop: "time_loop phys 0 ts sim0 (np_empty ([length ts] @ shape2 coords)) = Inr (sim', res)"
    by (auto simp: evaluate_def Let_def bind_err_eq_Inr)
  from time_loop_Inr [OF loop] sim0 show ?thesis by blast
qed

lemma never_fails_advances:
  "never_fails phys \<Longrightarrow> \<exists>ss. advances phys sim ts = Inr ss"
proof (induction ts arbitrary: sim)
  case Nil
  then show ?case by simp
next
  case (Cons t ts)
  from Cons.prems obtain ps where "phys sim (t - sim_t sim) = Inr ps"
    unfolding never_fails_def by blast
  then obtain s1 where s1: "integrate phys sim (t - sim_t sim) = Inr s1"
    by (simp add: integrate_def bind_err_Inr)
  from Cons.IH [OF Cons.prems] obtain ss where "advances phys s1 ts = Inr ss" by blast
  with s1 show ?case by (simp add: bind_err_Inr)
qed

lemma time_loop_fails:
  "advances phys sim ts = Inl e \<Longrightarrow> keeps_count phys \<Longrightarrow> shape r = [a, b, c] \<Longrightarrow>
   i0 + length ts \<le> a \<Longrightarrow> length (sim_particles sim) \<le> b \<Longrightarrow> 6 \<le> c \<Longrightarrow>
   time_loop phys i0 ts sim r = Inl e"
proof (induction ts arbitrary: i0 sim r)
  case Nil
  then show ?case by simp
next
  case (Cons t ts)
  show ?case
  proof (cases "integrate phys sim (t - sim_t sim)")
    case (Inl e')
    with Cons.prems(1) show ?thesis by (simp add: bind_err_Inl)
  next
    case (Inr s1)
    with Cons.prems(1) have rest: "advances phys s1 ts = Inl e"
      by (cases "advances phys s1 ts") (simp_all add: bind_err_Inr bind_err_Inl)
    from Inr Cons.prems(2) have len: "length (sim_particles s1) = length (sim_particles sim)"
      by (auto simp: integrate_def bind_err_eq_Inr keeps_count_def)
    have w: "write_particles i0 0 (sim_particles s1) r =
        Inr (put_particles i0 0 (sim_particles s1) r)"
      using Cons.prems len by (intro write_particles_ok) auto
    have "time_loop phys (Suc i0) ts s1 (put_particles i0 0 (sim_particles s1) r) = Inl e"
      using Cons.prems len by (intro Cons.IH [OF rest]) (auto simp: shape_put_particles)
    then show ?thesis
      by (simp add: Inr w bind_err_Inr)
  qed
qed

lemma evaluate_ok:
  assumes "masses \<noteq> []" "length masses \<le> length coords" "\<forall>r\<in>set coords. length r = 6"
    and "keeps_count phys" and "populate masses coords = Inr sim0"
    and "advances phys sim0 ts = Inr ss"
  shows "evaluate phys masses coords ts =
    Inr (put_steps 0 ss (np_empty [length ts, length coords, 6]))"
proof -
  from assms(1,2) have ne: "coords \<noteq> []" by auto
  have sh: "shape2 coords = [length coords, 6]"
    using ne assms(3) by (rule shape2_rows)
  have n: "length (sim_particles sim0) = length masses"
    using populate_Inr [OF assms(5)] by (simp add: length_expected_particles)
  have cnt: "\<forall>s\<in>set ss. length (sim_particles s) \<le> length coords"
    using keeps_count_advances [OF assms(4,6)] n assms(2) by simp
  have "time_loop phys 0 ts sim0 (np_empty [length ts, length coords, 6]) =
      Inr (last (sim0 # ss), put_steps 0 ss (np_empty [length ts, length coords, 6]))"
    using assms(6) _ _ cnt
    by (rule time_loop_ok [where a = "length ts" and b = "length coords" and c = 6])
      (simp_all add: np_empty_def)
  then show ?thesis
    by (simp add: evaluate_def sh assms(5) bind_err_Inr)
qed

lemma evaluate_fails:
  assumes "masses \<noteq> []" "length masses \<le> length coords" "\<forall>r\<in>set coords. length r = 6"
    and "keeps_count phys" and "populate masses coords = Inr sim0"
    and "advances phys sim0 ts = Inl e"
  shows "evaluate phys masses coords ts = Inl e"
proof -
  from assms(1,2) have ne: "coords \<noteq> []" by auto
  have sh: "shape2 coords = [length coords, 6]"
    using ne assms(3) by (rule shape2_rows)
  have n: "length (sim_particles sim0) = length masses"
    using populate_Inr [OF assms(5)] by (simp add: length_expected_particles)
  have "time_loop phys 0 ts sim0 (np_empty [length ts, length coords, 6]) = Inl e"
    using assms(6,4)
    by (rule time_loop_fails [where a = "length ts" and b = "length coords" and c = 6])
      (simp_all add: np_empty_def n assms(2))
  then show ?thesis
    by (simp add: evaluate_def sh assms(5) bind_err_Inr bind_err_Inl)
qed

lemma populate_ok:
  assumes "masses \<noteq> []" "length masses \<le> length coords" "\<forall>r\<in>set coords. length r = 6"
  shows "\<exists>sim0. populate masses coords = Inr sim0"
proof -
  have "\<forall>i<length masses. 6 \<le> length (coords ! i)"
    using assms(2,3) by simp
  from populate_rows [OF assms(1,2) this] show ?thesis by blast
qed

lemma keeps_count_forward_only: "keeps_count forward_only"
  by (auto simp: keeps_count_def forward_only_def free_drift_def split: if_splits)

lemma never_fails_free_drift: "never_fails free_drift"
  by (simp add: never_fails_def free_drift_def)

lemma evaluate_ok_count:
  assumes "coords \<noteq> []" "\<forall>r\<in>set coords. length r = 6"
    and "populate masses coords = Inr sim0" and "advances phys sim0 ts = Inr ss"
    and cnt: "\<forall>s\<in>set ss. length (sim_particles s) \<le> length coords"
  shows "evaluate phys masses coords ts =
    Inr (put_steps 0 ss (np_empty [length ts, length coords, 6]))"
proof -
  have sh: "shape2 coords = [length coords, 6]"
    using assms(1,2) by (rule shape2_rows)
  have "time_loop phys 0 ts sim0 (np_empty [length ts, length coords, 6]) =
      Inr (last (sim0 # ss), put_steps 0 ss (np_empty [length ts, length coords, 6]))"
    using assms(4) _ _ cnt
    by (rule time_loop_ok [where a = "length ts" and b = "length coords" and c = 6])
      (simp_all add: np_empty_def)
  then show ?thesis
    by (simp add: evaluate_def sh assms(3) bind_err_Inr)
qed

lemma drift_drift: "drift b (drift a p) = drift (a + b) p"
  by (simp add: drift_def algebra_simps)

lemma advances_lone:
  "inertial phys \<Longrightarrow> sim_particles sim = [p] \<Longrightarrow>
   advances phys sim ts =
     Inr (map (\<lambda>t. sim\<lparr>sim_t := t, sim_particles := [drift (t - sim_t sim) p]\<rparr>) ts)"
proof (induction ts arbitrary: sim p)
  case Nil
  then show ?case by simp
next
  case (Cons t ts)
  let ?s1 = "sim\<lparr>sim_t := t, sim_particles := [drift (t - sim_t sim) p]\<rparr>"
  from Cons.prems have "phys sim (t - sim_t sim) = free_drift sim (t - sim_t sim)"
    by (simp add: inertial_def)
  with Cons.prems(2) have s1: "integrate phys sim (t - sim_t sim) = Inr ?s1"
    by (simp add: integrate_def free_drift_def bind_err_Inr)
  have "advances phys ?s1 ts =
     Inr (map (\<lambda>t'. ?s1\<lparr>sim_t := t', sim_particles := [drift (t' - sim_t ?s1) (drift (t - sim_t sim) p)]\<rparr>) ts)"
    by (rule Cons.IH [OF Cons.prems(1)]) simp
  then show ?case
    by (simp add: s1 bind_err_Inr drift_drift)
qed

lemma inertial_free_drift: "inertial free_drift"
  by (simp add: inertial_def)

subsection \<open>The call and its storage\<close>


subsection \<open>Reordered particles\<close>

lemma is_perm_length: "is_perm \<sigma> n \<Longrightarrow> length \<sigma> = n"
  using distinct_card [of \<sigma>] by (simp add: is_perm_def)

lemma is_perm_nth_less: "is_perm \<sigma> n \<Longrightarrow> j < n \<Longrightarrow> \<sigma> ! j < n"
proof -
  assume p: "is_perm \<sigma> n" and j: "j < n"
  then have "\<sigma> ! j \<in> set \<sigma>" by (simp add: is_perm_length)
  with p show ?thesis by (simp add: is_perm_def)
qed

lemma is_perm_nth_eq:
  "is_perm \<sigma> n \<Longrightarrow> i < n \<Longrightarrow> j < n \<Longrightarrow> \<sigma> ! i = \<sigma> ! j \<longleftrightarrow> i = j"
  using nth_eq_iff_index_eq [of \<sigma> i j] by (simp add: is_perm_length) (simp add: is_perm_def)

lemma length_permute: "length (permute \<sigma> xs) = length \<sigma>"
  by (simp add: permute_def)

lemma nth_permute: "j < length \<sigma> \<Longrightarrow> permute \<sigma> xs ! j = xs ! (\<sigma> ! j)"
  by (simp add: permute_def)

lemma set_permute: "is_perm \<sigma> (length xs) \<Longrightarrow> set (permute \<sigma> xs) = set xs"
proof -
  assume p: "is_perm \<sigma> (length xs)"
  have "set (permute \<sigma> xs) = (\<lambda>i. xs ! i) ` set \<sigma>"
    by (simp add: permute_def)
  also have "\<dots> = (\<lambda>i. xs ! i) ` {..<length xs}"
    using p by (simp add: is_perm_def)
  also have "\<dots> = set xs"
    by (auto simp: in_set_conv_nth)
  finally show ?thesis .
qed

lemma well_shaped_permute:
  assumes "well_shaped masses coords" and "is_perm \<sigma> (length masses)"
  shows "well_shaped (permute \<sigma> masses) (permute \<sigma> coords)"
proof -
  from assms(1) have ne: "masses \<noteq> []" and len: "length coords = length masses"
    and six: "\<forall>r\<in>set coords. length r = 6"
    by (auto simp: well_shaped_def)
  have l: "length \<sigma> = length masses"
    using assms(2) by (rule is_perm_length)
  have "set (permute \<sigma> coords) = set coords"
    using assms(2) len by (intro set_permute) simp
  moreover have "permute \<sigma> masses \<noteq> []"
    using ne l by (auto simp: permute_def)
  ultimately show ?thesis
    using six l by (simp add: well_shaped_def length_permute)
qed

lemma expected_particles_permute:
  assumes "is_perm \<sigma> (length masses)" and "\<sigma> ! 0 = 0" and "masses \<noteq> []"
  shows "expected_particles (permute \<sigma> masses) (permute \<sigma> coords) =
    permute \<sigma> (expected_particles masses coords)"
proof (rule nth_equalityI)
  have l: "length \<sigma> = length masses"
    using assms(1) by (rule is_perm_length)
  show "length (expected_particles (permute \<sigma> masses) (permute \<sigma> coords)) =
    length (permute \<sigma> (expected_particles masses coords))"
    by (simp add: length_expected_particles length_permute)
  fix i
  assume "i < length (expected_particles (permute \<sigma> masses) (permute \<sigma> coords))"
  then have i: "i < length masses"
    by (simp add: length_expected_particles length_permute l)
  from assms(3) have z: "0 < length masses" by simp
  have less: "\<sigma> ! i < length masses"
    using assms(1) i by (rule is_perm_nth_less)
  have zero: "\<sigma> ! i = 0 \<longleftrightarrow> i = 0"
    using is_perm_nth_eq [OF assms(1) i z] assms(2) by simp
  show "expected_particles (permute \<sigma> masses) (permute \<sigma> coords) ! i =
    permute \<sigma> (expected_particles masses coords) ! i"
    using i z less zero
    by (simp add: nth_expected_particles length_permute l nth_permute assms(2))
qed

lemma populate_permute:
  assumes "well_shaped masses coords" and "is_perm \<sigma> (length masses)" and "\<sigma> ! 0 = 0"
    and "populate masses coords = Inr sim0"
  shows "populate (permute \<sigma> masses) (permute \<sigma> coords) = Inr (perm_sim \<sigma> sim0)"
proof -
  from assms(1) have ne: "masses \<noteq> []"
    by (simp add: well_shaped_def)
  have l: "length \<sigma> = length masses"
    using assms(2) by (rule is_perm_length)
  from well_shaped_permute [OF assms(1,2)]
  have "populate (permute \<sigma> masses) (permute \<sigma> coords) =
     Inr \<lparr>sim_G = (permute \<sigma> masses ! 0) ^ 2, sim_t = 0,
          sim_particles = expected_particles (permute \<sigma> masses) (permute \<sigma> coords)\<rparr>"
    by (intro populate_rows) (auto simp: well_shaped_def)
  moreover have "permute \<sigma> masses ! 0 = masses ! 0"
    using ne l assms(3) by (simp add: nth_permute)
  ultimately show ?thesis
    using populate_Inr [OF assms(4)] expected_particles_permute [OF assms(2,3) ne]
    by (simp add: perm_sim_def)
qed

lemma integrate_permute:
  assumes "equivariant phys" and "is_perm \<sigma> (length (sim_particles sim))"
    and "integrate phys sim dt = Inr sim'"
  shows "integrate phys (perm_sim \<sigma> sim) dt = Inr (perm_sim \<sigma> sim')"
proof -
  from assms(3) obtain ps where ps: "phys sim dt = Inr ps"
    and sim': "sim' = sim\<lparr>sim_t := sim_t sim + dt, sim_particles := ps\<rparr>"
    by (auto simp: integrate_def bind_err_eq_Inr)
  from assms(1,2) have "phys (perm_sim \<sigma> sim) dt = map_sum id (permute \<sigma>) (phys sim dt)"
    by (simp add: equivariant_def)
  with ps have "phys (perm_sim \<sigma> sim) dt = Inr (permute \<sigma> ps)" by simp
  then show ?thesis
    by (simp add: integrate_def bind_err_Inr sim' perm_sim_def)
qed

lemma advances_permute:
  "equivariant phys \<Longrightarrow> keeps_count phys \<Longrightarrow> is_perm \<sigma> (length (sim_particles sim)) \<Longrightarrow>
   advances phys sim ts = Inr ss \<Longrightarrow>
   advances phys (perm_sim \<sigma> sim) ts = Inr (map (perm_sim \<sigma>) ss)"
proof (induction ts arbitrary: sim ss)
  case Nil
  then show ?case by simp
next
  case (Cons t ts)
  from Cons.prems(4) obtain s1 ss' where
    s1: "integrate phys sim (t - sim_t sim) = Inr s1"
    and ss': "advances phys s1 ts = Inr ss'" and ss: "ss = s1 # ss'"
    by (auto simp: bind_err_eq_Inr)
  from s1 Cons.prems(2) have len: "length (sim_particles s1) = length (sim_particles sim)"
    by (auto simp: integrate_def bind_err_eq_Inr keeps_count_def)
  have clock: "sim_t (perm_sim \<sigma> sim) = sim_t sim"
    by (simp add: perm_sim_def)
  have step: "integrate phys (perm_sim \<sigma> sim) (t - sim_t sim) = Inr (perm_sim \<sigma> s1)"
    using Cons.prems(1,3) s1 by (rule integrate_permute)
  have "advances phys (perm_sim \<sigma> s1) ts = Inr (map (perm_sim \<sigma>) ss')"
    using Cons.prems(1,2) _ ss' by (rule Cons.IH) (simp add: len Cons.prems(3))
  with step show ?case
    by (simp add: clock bind_err_Inr ss)
qed

lemma map_permute:
  "is_perm \<sigma> (length xs) \<Longrightarrow> map f (permute \<sigma> xs) = permute \<sigma> (map f xs)"
proof -
  assume p: "is_perm \<sigma> (length xs)"
  have "f (xs ! i) = map f xs ! i" if "i \<in> set \<sigma>" for i
    using p that by (simp add: is_perm_def)
  then show ?thesis
    by (simp add: permute_def)
qed

lemma equivariant_free_drift: "equivariant free_drift"
  by (simp add: equivariant_def free_drift_def perm_sim_def map_permute)



section \<open>The claims\<close>




text \<open>
  C4. With an empty \<^verbatim>\<open>times\<close> and well-shaped masses and coordinates of
  \<open>N\<close> particles, the evaluation succeeds and returns the tensor of shape
  \<open>(0, N, 6)\<close>, which has no cell.
\<close>

theorem evaluate_no_times:
  assumes "well_shaped masses coords"
  shows "evaluate phys masses coords [] =
    Inr \<lparr>shape = [0, length masses, 6], cells = Map.empty\<rparr>"
proof -
  from assms have ne: "coords \<noteq> []" and six: "\<forall>r\<in>set coords. length r = 6"
    and len: "length coords = length masses"
    by (auto simp: well_shaped_def)
  have "populate masses coords =
     Inr \<lparr>sim_G = (masses ! 0) ^ 2, sim_t = 0, sim_particles = expected_particles masses coords\<rparr>"
    using assms by (intro populate_rows) (auto simp: well_shaped_def)
  then show ?thesis
    by (simp add: evaluate_def bind_err_Inr np_empty_def shape2_rows [OF ne six] len)
qed

theorem evaluate_no_times_witness:
  "well_shaped [1, 2] [[0, 0, 0, 0, 0, 0], [1, 0, 0, 0, 1, 0]] \<and>
   evaluate free_drift [1, 2] [[0, 0, 0, 0, 0, 0], [1, 0, 0, 0, 1, 0]] [] =
     Inr \<lparr>shape = [0, 2, 6], cells = Map.empty\<rparr>"
proof -
  have h: "well_shaped [1, 2] [[0, 0, 0, 0, 0, 0], [1, 0, 0, 0, 1, 0]]"
    by (simp add: well_shaped_def)
  show ?thesis
    using h evaluate_no_times [OF h, of free_drift] by simp
qed

text \<open>
  C5. When there is at least one mass and \<^verbatim>\<open>coords\<close> has a row of six columns
  for each mass, the simulation is populated: its gravitational constant is the square of
  \<^verbatim>\<open>masses[0]\<close>, it holds one particle for each mass, particle 0 has mass 1 and the
  state of row 0, and particle \<open>i\<close> with \<open>1 \<le> i < N\<close> has mass
  \<^verbatim>\<open>masses[i] / masses[0]\<close> and the state of row \<open>i\<close>. (For
  \<^verbatim>\<open>masses[0] = 0\<close> the quotient is numpy's non-finite value, which
  \<^typ>\<open>real\<close> does not have.)
\<close>

theorem populate_primary_convention:
  assumes "masses \<noteq> []" and "length masses \<le> length coords"
    and "\<forall>i<length masses. 6 \<le> length (coords ! i)"
  shows "\<exists>sim. populate masses coords = Inr sim \<and>
    sim_G sim = (masses ! 0) ^ 2 \<and>
    length (sim_particles sim) = length masses \<and>
    sim_particles sim ! 0 = row_particle 1 (coords ! 0) \<and>
    (\<forall>i. 1 \<le> i \<and> i < length masses \<longrightarrow>
       sim_particles sim ! i = row_particle (masses ! i / masses ! 0) (coords ! i))"
proof -
  have "populate masses coords = Inr \<lparr>sim_G = (masses ! 0) ^ 2, sim_t = 0,
    sim_particles = expected_particles masses coords\<rparr>"
    using assms by (rule populate_rows)
  moreover have "expected_particles masses coords ! 0 = row_particle 1 (coords ! 0)"
    using assms(1) by (simp add: nth_expected_particles)
  ultimately show ?thesis
    by (simp add: length_expected_particles nth_expected_particles)
qed

theorem populate_primary_convention_witness:
  "\<exists>sim. populate [2, 4, 6] [[0, 0, 0, 0, 0, 0], [1, 0, 0, 0, 1, 0], [0, 3, 0, 0, 0, 1]] = Inr sim \<and>
     sim_G sim = 4 \<and> length (sim_particles sim) = 3 \<and>
     sim_particles sim ! 0 = row_particle 1 [0, 0, 0, 0, 0, 0] \<and>
     sim_particles sim ! 1 = row_particle 2 [1, 0, 0, 0, 1, 0] \<and>
     sim_particles sim ! 2 = row_particle 3 [0, 3, 0, 0, 0, 1]"
proof -
  let ?masses = "[2, 4, 6] :: real list"
  let ?coords = "[[0, 0, 0, 0, 0, 0], [1, 0, 0, 0, 1, 0], [0, 3, 0, 0, 0, 1]] :: real list list"
  have h: "?masses \<noteq> []" "length ?masses \<le> length ?coords"
    "\<forall>i<length ?masses. 6 \<le> length (?coords ! i)"
    by (simp_all add: less_Suc_eq numeral_3_eq_3)
  from populate_primary_convention [OF h] obtain sim where
    sim: "populate ?masses ?coords = Inr sim" "sim_G sim = (?masses ! 0) ^ 2"
      "length (sim_particles sim) = length ?masses"
      "sim_particles sim ! 0 = row_particle 1 (?coords ! 0)"
      "\<forall>i. 1 \<le> i \<and> i < length ?masses \<longrightarrow>
         sim_particles sim ! i = row_particle (?masses ! i / ?masses ! 0) (?coords ! i)"
    by blast
  from sim(5) have "sim_particles sim ! 1 = row_particle (?masses ! 1 / ?masses ! 0) (?coords ! 1)"
    "sim_particles sim ! 2 = row_particle (?masses ! 2 / ?masses ! 0) (?coords ! 2)"
    by simp_all
  with sim show ?thesis by simp
qed

text \<open>
  C3. For well-shaped masses and coordinates of \<open>N\<close> particles, a vector of
  \<open>T\<close> times and an integrator that keeps the number of particles, the tensor that the
  evaluation returns has shape \<open>(T, N, 6)\<close>, and its cell \<open>(i, j, k)\<close> is the
  \<open>k\<close>-th component, in the order x, y, z, vx, vy, vz, of particle \<open>j\<close> of the
  simulation after the advance to the \<open>i\<close>-th requested time.
\<close>

theorem result_shape_and_layout:
  assumes "well_shaped masses coords" and "keeps_count phys"
    and "evaluate phys masses coords ts = Inr res"
  shows "shape res = [length ts, length masses, 6] \<and>
    (\<exists>sim0 ss. populate masses coords = Inr sim0 \<and> advances phys sim0 ts = Inr ss \<and>
       (\<forall>i<length ts. \<forall>j<length masses. \<forall>k<6.
          cells res (i, j, k) = Some (state_vector (sim_particles (ss ! i) ! j) ! k)))"
proof -
  from assms(1) have ne: "masses \<noteq> []" and len: "length coords = length masses"
    and six: "\<forall>r\<in>set coords. length r = 6"
    by (auto simp: well_shaped_def)
  from evaluate_Inr [OF assms(3)] obtain sim0 ss where
    sim0: "populate masses coords = Inr sim0" and ss: "advances phys sim0 ts = Inr ss"
    and res: "res = put_steps 0 ss (np_empty ([length ts] @ shape2 coords))"
    by blast
  have sh: "shape2 coords = [length coords, 6]"
    using ne len six by (intro shape2_rows) auto
  have n: "length (sim_particles sim0) = length masses"
    using populate_Inr [OF sim0] by (simp add: length_expected_particles)
  have cnt: "\<forall>s\<in>set ss. length (sim_particles s) = length masses"
    using keeps_count_advances [OF assms(2) ss] n by simp
  have l: "length ss = length ts"
    using ss by (rule advances_length)
  have "cells res (i, j, k) = Some (state_vector (sim_particles (ss ! i) ! j) ! k)"
    if "i < length ts" "j < length masses" "k < 6" for i j k
    using that cnt l unfolding res by (intro cells_put_steps) auto
  moreover have "shape res = [length ts, length masses, 6]"
    by (simp add: res shape_put_steps np_empty_def sh len)
  ultimately show ?thesis
    using sim0 ss by blast
qed

theorem result_shape_and_layout_witness:
  "well_shaped [1, 2] [[0, 0, 0, 1, 0, 0], [1, 0, 0, 0, 1, 0]] \<and> keeps_count free_drift \<and>
   (\<exists>res. evaluate free_drift [1, 2] [[0, 0, 0, 1, 0, 0], [1, 0, 0, 0, 1, 0]] [1, 3] = Inr res \<and>
      shape res = [2, 2, 6] \<and> cells res (1, 1, 1) = Some 3)"
proof -
  let ?masses = "[1, 2] :: real list"
  let ?coords = "[[0, 0, 0, 1, 0, 0], [1, 0, 0, 0, 1, 0]] :: real list list"
  let ?ts = "[1, 3] :: real list"
  have ws: "well_shaped ?masses ?coords"
    by (simp add: well_shaped_def)
  have "\<exists>res. evaluate free_drift ?masses ?coords ?ts = Inr res"
    by (simp add: run_defs upt_conv_Cons)
  then obtain res where res: "evaluate free_drift ?masses ?coords ?ts = Inr res" ..
  from result_shape_and_layout [OF ws keeps_count_free_drift res]
  have sh: "shape res = [2, 2, 6]" by simp
  have "map_sum id (\<lambda>r. cells r (1, 1, 1)) (evaluate free_drift ?masses ?coords ?ts) =
      Inr (Some 3)"
    by (simp add: run_defs upt_conv_Cons)
  with res have "cells res (1, 1, 1) = Some 3" by simp
  with ws keeps_count_free_drift res sh show ?thesis by blast
qed

text \<open>
  C10. When \<^verbatim>\<open>coords\<close> has more rows than there are masses (six columns, at least
  one mass) and the integrator neither fails nor changes the number of particles, the
  evaluation returns; the tensor has shape \<open>(T, rows, 6)\<close>; the cells of the first
  \<open>len(masses)\<close> particles are written and no cell of a particle index from
  \<open>len(masses)\<close> on is ever written: it keeps what \<^verbatim>\<open>np.empty\<close> left there.
\<close>

theorem surplus_rows_never_written:
  assumes "masses \<noteq> []" and "length masses < length coords"
    and "\<forall>r\<in>set coords. length r = 6"
    and "keeps_count phys" and "never_fails phys"
  shows "\<exists>res. evaluate phys masses coords ts = Inr res \<and>
    shape res = [length ts, length coords, 6] \<and>
    (\<forall>i j k. length masses \<le> j \<longrightarrow> cells res (i, j, k) = None) \<and>
    (\<forall>i<length ts. \<forall>j<length masses. \<forall>k<6. cells res (i, j, k) \<noteq> None)"
proof -
  from assms(2) have le: "length masses \<le> length coords" by simp
  from populate_ok [OF assms(1) le assms(3)] obtain sim0 where
    sim0: "populate masses coords = Inr sim0" ..
  from never_fails_advances [OF assms(5)] obtain ss where
    ss: "advances phys sim0 ts = Inr ss" ..
  let ?res = "put_steps 0 ss (np_empty [length ts, length coords, 6])"
  have ev: "evaluate phys masses coords ts = Inr ?res"
    using assms(1) le assms(3,4) sim0 ss by (rule evaluate_ok)
  have n: "length (sim_particles sim0) = length masses"
    using populate_Inr [OF sim0] by (simp add: length_expected_particles)
  have cnt: "\<forall>s\<in>set ss. length (sim_particles s) = length masses"
    using keeps_count_advances [OF assms(4) ss] n by simp
  have l: "length ss = length ts"
    using ss by (rule advances_length)
  have none: "cells ?res (i, j, k) = None" if "length masses \<le> j" for i j k
  proof -
    have "\<forall>s\<in>set ss. length (sim_particles s) \<le> j"
      using cnt that by simp
    then show ?thesis
      by (simp add: cells_put_steps_outside np_empty_def)
  qed
  have some: "cells ?res (i, j, k) \<noteq> None" if "i < length ts" "j < length masses" "k < 6" for i j k
  proof -
    have "cells ?res (i, j, k) = Some (state_vector (sim_particles (ss ! i) ! j) ! k)"
      using that cnt l by (intro cells_put_steps) auto
    then show ?thesis by simp
  qed
  have "shape ?res = [length ts, length coords, 6]"
    by (simp add: shape_put_steps np_empty_def)
  with ev none some show ?thesis by blast
qed

theorem surplus_rows_never_written_witness:
  "[1] \<noteq> ([] :: real list) \<and>
   length [1 :: real] < length [[0, 0, 0, 1, 0, 0], [1, 0, 0, 0, 1, 0 :: real]] \<and>
   keeps_count free_drift \<and> never_fails free_drift \<and>
   (\<exists>res. evaluate free_drift [1] [[0, 0, 0, 1, 0, 0], [1, 0, 0, 0, 1, 0]] [2] = Inr res \<and>
      shape res = [1, 2, 6] \<and> cells res (0, 1, 0) = None \<and> cells res (0, 0, 0) \<noteq> None)"
proof -
  let ?masses = "[1] :: real list"
  let ?coords = "[[0, 0, 0, 1, 0, 0], [1, 0, 0, 0, 1, 0]] :: real list list"
  have h: "?masses \<noteq> []" "length ?masses < length ?coords" "\<forall>r\<in>set ?coords. length r = 6"
    by simp_all
  from surplus_rows_never_written [OF h keeps_count_free_drift never_fails_free_drift, of "[2]"]
  obtain res where res: "evaluate free_drift ?masses ?coords [2] = Inr res"
    "shape res = [length [2 :: real], length ?coords, 6]"
    "\<forall>i j k. length ?masses \<le> j \<longrightarrow> cells res (i, j, k) = None"
    "\<forall>i<length [2 :: real]. \<forall>j<length ?masses. \<forall>k<6. cells res (i, j, k) \<noteq> None"
    by blast
  from res(3) have a: "cells res (0, 1, 0) = None" by simp
  from res(4) have b: "cells res (0, 0, 0) \<noteq> None" by simp
  from res(2) have c: "shape res = [1, 2, 6]" by simp
  from h(1,2) keeps_count_free_drift never_fails_free_drift res(1) a b c show ?thesis by blast
qed

text \<open>
  C9, as stated, fails: with a zero primary mass the quotient
  \<^verbatim>\<open>masses[1] / masses[0]\<close> is an operation on numpy scalars, which gives a non-finite
  value and a warning and does not raise; the simulation is constructed, and with no
  requested time the call returns the tensor of shape \<open>(0, 2, 6)\<close>.
\<close>

theorem zero_primary_mass_counterexample:
  "map_sum id shape (evaluate free_drift [0, 1] [[0, 0, 0, 0, 0, 0], [1, 0, 0, 0, 1, 0]] []) =
     Inr [0, 2, 6]"
  by (simp add: run_defs upt_conv_Cons)

text \<open>
  C9, amended. For well-shaped inputs, whatever the masses, the simulation is constructed.
  When an advance to a requested time fails, the evaluation fails with the same error:
  nothing is caught or retried and no tensor is returned. Otherwise the evaluation returns
  the whole tensor of shape \<open>(T, N, 6)\<close> with every cell written. (The integrator is
  assumed to keep the number of particles.)
\<close>

theorem integrator_failure_propagates:
  assumes "well_shaped masses coords" and "keeps_count phys"
  shows "\<exists>sim0. populate masses coords = Inr sim0 \<and>
    (\<forall>e. advances phys sim0 ts = Inl e \<longrightarrow> evaluate phys masses coords ts = Inl e) \<and>
    (\<forall>ss. advances phys sim0 ts = Inr ss \<longrightarrow>
       (\<exists>res. evaluate phys masses coords ts = Inr res \<and>
          shape res = [length ts, length masses, 6] \<and>
          (\<forall>i<length ts. \<forall>j<length masses. \<forall>k<6. cells res (i, j, k) \<noteq> None)))"
proof -
  from assms(1) have ne: "masses \<noteq> []" and len: "length coords = length masses"
    and six: "\<forall>r\<in>set coords. length r = 6"
    by (auto simp: well_shaped_def)
  from len have le: "length masses \<le> length coords" by simp
  from populate_ok [OF ne le six] obtain sim0 where
    sim0: "populate masses coords = Inr sim0" ..
  have fails: "evaluate phys masses coords ts = Inl e" if "advances phys sim0 ts = Inl e" for e
    using ne le six assms(2) sim0 that by (rule evaluate_fails)
  have returns: "\<exists>res. evaluate phys masses coords ts = Inr res \<and>
          shape res = [length ts, length masses, 6] \<and>
          (\<forall>i<length ts. \<forall>j<length masses. \<forall>k<6. cells res (i, j, k) \<noteq> None)"
    if ss: "advances phys sim0 ts = Inr ss" for ss
  proof -
    let ?res = "put_steps 0 ss (np_empty [length ts, length coords, 6])"
    have ev: "evaluate phys masses coords ts = Inr ?res"
      using ne le six assms(2) sim0 ss by (rule evaluate_ok)
    have n: "length (sim_particles sim0) = length masses"
      using populate_Inr [OF sim0] by (simp add: length_expected_particles)
    have cnt: "\<forall>s\<in>set ss. length (sim_particles s) = length masses"
      using keeps_count_advances [OF assms(2) ss] n by simp
    have l: "length ss = length ts"
      using ss by (rule advances_length)
    have "cells ?res (i, j, k) \<noteq> None" if "i < length ts" "j < length masses" "k < 6" for i j k
    proof -
      have "cells ?res (i, j, k) = Some (state_vector (sim_particles (ss ! i) ! j) ! k)"
        using that cnt l by (intro cells_put_steps) auto
      then show ?thesis by simp
    qed
    moreover have "shape ?res = [length ts, length masses, 6]"
      by (simp add: shape_put_steps np_empty_def len)
    ultimately show ?thesis using ev by blast
  qed
  from sim0 fails returns show ?thesis by blast
qed

theorem integrator_failure_propagates_witness:
  "well_shaped [0, 1] [[0, 0, 0, 1, 0, 0], [1, 0, 0, 0, 1, 0]] \<and> keeps_count forward_only \<and>
   evaluate forward_only [0, 1] [[0, 0, 0, 1, 0, 0], [1, 0, 0, 0, 1, 0]] [1, 0] =
     Inl (IntegratorError ''backward'')"
proof -
  let ?masses = "[0, 1] :: real list"
  let ?coords = "[[0, 0, 0, 1, 0, 0], [1, 0, 0, 0, 1, 0]] :: real list list"
  have ws: "well_shaped ?masses ?coords"
    by (simp add: well_shaped_def)
  from integrator_failure_propagates [OF ws keeps_count_forward_only, of "[1, 0]"]
  obtain sim0 where sim0: "populate ?masses ?coords = Inr sim0"
    and fails: "\<forall>e. advances forward_only sim0 [1, 0] = Inl e \<longrightarrow>
      evaluate forward_only ?masses ?coords [1, 0] = Inl e"
    by blast
  have "sim_t sim0 = 0"
    using populate_Inr [OF sim0] by simp
  then have "advances forward_only sim0 [1, 0] = Inl (IntegratorError ''backward'')"
    by (simp add: integrate_def forward_only_def free_drift_def bind_err_def)
  with fails have "evaluate forward_only ?masses ?coords [1, 0] = Inl (IntegratorError ''backward'')"
    by blast
  with ws keeps_count_forward_only show ?thesis by blast
qed

text \<open>
  C2, as stated, fails: a lone particle with a velocity moves. With one mass, the row
  \<open>(0, 0, 0, 1, 0, 0)\<close> and the requested time 1, the first component of the output
  state is 1, and the input has 0 there.
\<close>

theorem lone_particle_counterexample:
  "map_sum id (\<lambda>r. cells r (0, 0, 0)) (evaluate free_drift [1] [[0, 0, 0, 1, 0, 0]] [1]) =
     Inr (Some 1)"
  by (simp add: run_defs)

text \<open>
  C2, amended. With one mass, one row of six columns and an integrator that moves a lone
  particle uniformly, the evaluation returns for every vector of times; at each requested
  time \<open>t\<close> the velocity of the output state is the velocity of the input and its
  position is the position of the input plus \<open>t\<close> times the velocity. So the output
  state is the input state where \<open>t\<close> times the velocity is zero, as for a particle
  at rest.
\<close>

theorem lone_particle_moves_uniformly:
  assumes "inertial phys" and "length row = 6"
  shows "\<exists>res. evaluate phys [m0] [row] ts = Inr res \<and> shape res = [length ts, 1, 6] \<and>
    (\<forall>i<length ts.
       cells res (i, 0, 0) = Some (row ! 0 + row ! 3 * ts ! i) \<and>
       cells res (i, 0, 1) = Some (row ! 1 + row ! 4 * ts ! i) \<and>
       cells res (i, 0, 2) = Some (row ! 2 + row ! 5 * ts ! i) \<and>
       cells res (i, 0, 3) = Some (row ! 3) \<and>
       cells res (i, 0, 4) = Some (row ! 4) \<and>
       cells res (i, 0, 5) = Some (row ! 5))"
proof -
  let ?p = "row_particle 1 row"
  let ?sim0 = "\<lparr>sim_G = m0 ^ 2, sim_t = 0, sim_particles = [?p]\<rparr>"
  let ?ss = "map (\<lambda>t. ?sim0\<lparr>sim_t := t, sim_particles := [drift (t - sim_t ?sim0) ?p]\<rparr>) ts"
  let ?res = "put_steps 0 ?ss (np_empty [length ts, length [row], 6])"
  have sim0: "populate [m0] [row] = Inr ?sim0"
    using populate_rows [of "[m0]" "[row]"] assms(2) by (simp add: expected_particles_def)
  have ss: "advances phys ?sim0 ts = Inr ?ss"
    by (rule advances_lone [OF assms(1)]) simp
  have ev: "evaluate phys [m0] [row] ts = Inr ?res"
    using _ _ sim0 ss by (rule evaluate_ok_count) (simp_all add: assms(2))
  have "cells ?res (i, 0, k) = Some (state_vector (drift (ts ! i) ?p) ! k)"
    if "i < length ts" "k < 6" for i k
    using that by (simp add: cells_put_steps)
  then have "cells ?res (i, 0, 0) = Some (row ! 0 + row ! 3 * ts ! i) \<and>
       cells ?res (i, 0, 1) = Some (row ! 1 + row ! 4 * ts ! i) \<and>
       cells ?res (i, 0, 2) = Some (row ! 2 + row ! 5 * ts ! i) \<and>
       cells ?res (i, 0, 3) = Some (row ! 3) \<and>
       cells ?res (i, 0, 4) = Some (row ! 4) \<and>
       cells ?res (i, 0, 5) = Some (row ! 5)" if "i < length ts" for i
    using that by (simp add: state_vector_def drift_def row_particle_def)
  moreover have "shape ?res = [length ts, 1, 6]"
    by (simp add: shape_put_steps np_empty_def)
  ultimately show ?thesis using ev by blast
qed

theorem lone_particle_moves_uniformly_witness:
  "inertial free_drift \<and> length [0, 0, 0, 1, 0, 0 :: real] = 6 \<and>
   (\<exists>res. evaluate free_drift [5] [[0, 0, 0, 1, 0, 0]] [1, 2] = Inr res \<and>
      shape res = [2, 1, 6] \<and>
      cells res (1, 0, 0) = Some 2 \<and> cells res (1, 0, 3) = Some 1)"
proof -
  let ?row = "[0, 0, 0, 1, 0, 0] :: real list"
  have six: "length ?row = 6" by simp
  from lone_particle_moves_uniformly [OF inertial_free_drift six, of 5 "[1, 2]"]
  obtain res where res: "evaluate free_drift [5] [?row] [1, 2] = Inr res"
    "shape res = [length [1, 2 :: real], 1, 6]"
    "\<forall>i<length [1, 2 :: real].
       cells res (i, 0, 0) = Some (?row ! 0 + ?row ! 3 * [1, 2] ! i) \<and>
       cells res (i, 0, 1) = Some (?row ! 1 + ?row ! 4 * [1, 2] ! i) \<and>
       cells res (i, 0, 2) = Some (?row ! 2 + ?row ! 5 * [1, 2] ! i) \<and>
       cells res (i, 0, 3) = Some (?row ! 3) \<and>
       cells res (i, 0, 4) = Some (?row ! 4) \<and>
       cells res (i, 0, 5) = Some (?row ! 5)"
    by blast
  from res(3) [rule_format, of 1]
  have a: "cells res (1, 0, 0) = Some 2" and b: "cells res (1, 0, 3) = Some 1"
    by simp_all
  from res(2) have c: "shape res = [2, 1, 6]" by simp
  from inertial_free_drift six res(1) a b c show ?thesis by blast
qed






text \<open>
  C6, as stated, fails: index 0 is always the primary, with mass 1 and the gravitational
  constant from its input mass, so exchanging the primary and a secondary gives another
  physical system. With the masses 1 and 2 at rest at distance 1 and one step under gravity,
  slice 0 of the exchanged run has the first component \<open>-1\<close>, and slice 1 of the
  original run has 0 there.
\<close>

theorem primary_swap_counterexample:
  "map_sum id (\<lambda>r. cells r (0, 0, 0))
     (evaluate kick_drift (permute [1, 0] [1, 2])
        (permute [1, 0] [[0, 0, 0, 0, 0, 0], [1, 0, 0, 0, 0, 0]]) [1]) = Inr (Some (- 1)) \<and>
   map_sum id (\<lambda>r. cells r (0, 1, 0))
     (evaluate kick_drift [1, 2] [[0, 0, 0, 0, 0, 0], [1, 0, 0, 0, 0, 0]] [1]) = Inr (Some 0)"
  by (simp add: run_defs upt_conv_Cons kick_drift_def permute_def)

text \<open>
  C6, amended. For well-shaped inputs and an integrator that keeps the number of particles,
  particle \<open>j\<close> of the simulation is made from \<^verbatim>\<open>masses[j]\<close> and row
  \<open>j\<close> of \<^verbatim>\<open>coords\<close>, and slice \<open>j\<close> of the result is read from
  particle \<open>j\<close>: nothing is reindexed. When moreover the integrator treats all
  particles alike and the permutation leaves index 0 in place, the evaluation of the
  permuted masses and coordinates returns the result with its slices permuted in the same
  way.
\<close>

theorem secondaries_permutation_equivariance:
  assumes "well_shaped masses coords" and "is_perm \<sigma> (length masses)" and "\<sigma> ! 0 = 0"
    and "keeps_count phys" and "equivariant phys"
    and "evaluate phys masses coords ts = Inr res"
  shows "(\<exists>sim0 ss. populate masses coords = Inr sim0 \<and> advances phys sim0 ts = Inr ss \<and>
       (\<forall>j<length masses. sim_particles sim0 ! j =
          row_particle (if j = 0 then 1 else masses ! j / masses ! 0) (coords ! j)) \<and>
       (\<forall>i<length ts. \<forall>j<length masses. \<forall>k<6.
          cells res (i, j, k) = Some (state_vector (sim_particles (ss ! i) ! j) ! k))) \<and>
    (\<exists>res'. evaluate phys (permute \<sigma> masses) (permute \<sigma> coords) ts = Inr res' \<and>
       shape res' = shape res \<and>
       (\<forall>i<length ts. \<forall>j<length masses. \<forall>k<6.
          cells res' (i, j, k) = cells res (i, \<sigma> ! j, k)))"
proof -
  from assms(1) have ne: "masses \<noteq> []" and len: "length coords = length masses"
    and six: "\<forall>r\<in>set coords. length r = 6"
    by (auto simp: well_shaped_def)
  have l: "length \<sigma> = length masses"
    using assms(2) by (rule is_perm_length)
  from evaluate_Inr [OF assms(6)] obtain sim0 ss where
    sim0: "populate masses coords = Inr sim0" and ss: "advances phys sim0 ts = Inr ss"
    and res: "res = put_steps 0 ss (np_empty ([length ts] @ shape2 coords))"
    by blast
  have n: "length (sim_particles sim0) = length masses"
    using populate_Inr [OF sim0] by (simp add: length_expected_particles)
  have cnt: "\<forall>s\<in>set ss. length (sim_particles s) = length masses"
    using keeps_count_advances [OF assms(4) ss] n by simp
  have lss: "length ss = length ts"
    using ss by (rule advances_length)
  have rows: "sim_particles sim0 ! j =
      row_particle (if j = 0 then 1 else masses ! j / masses ! 0) (coords ! j)"
    if "j < length masses" for j
    using populate_Inr [OF sim0] that by (simp add: nth_expected_particles)
  have cell: "cells res (i, j, k) = Some (state_vector (sim_particles (ss ! i) ! j) ! k)"
    if "i < length ts" "j < length masses" "k < 6" for i j k
    using that cnt lss unfolding res by (intro cells_put_steps) auto
  let ?masses = "permute \<sigma> masses" and ?coords = "permute \<sigma> coords"
  have ws: "well_shaped ?masses ?coords"
    using assms(1,2) by (rule well_shaped_permute)
  then have ne': "?masses \<noteq> []" and le': "length ?masses \<le> length ?coords"
    and six': "\<forall>r\<in>set ?coords. length r = 6"
    by (auto simp: well_shaped_def)
  have sim0': "populate ?masses ?coords = Inr (perm_sim \<sigma> sim0)"
    using assms(1,2,3) sim0 by (rule populate_permute)
  have ss': "advances phys (perm_sim \<sigma> sim0) ts = Inr (map (perm_sim \<sigma>) ss)"
    using assms(5,4) _ ss by (rule advances_permute) (simp add: n assms(2))
  let ?res = "put_steps 0 (map (perm_sim \<sigma>) ss) (np_empty [length ts, length ?coords, 6])"
  have ev: "evaluate phys ?masses ?coords ts = Inr ?res"
    using ne' le' six' assms(4) sim0' ss' by (rule evaluate_ok)
  have sh: "shape ?res = shape res"
  proof -
    have "shape2 coords = [length coords, 6]"
      using ne len six by (intro shape2_rows) auto
    then show ?thesis
      by (simp add: res shape_put_steps np_empty_def length_permute l len)
  qed
  have "cells ?res (i, j, k) = cells res (i, \<sigma> ! j, k)"
    if i: "i < length ts" and j: "j < length masses" and k: "k < 6" for i j k
  proof -
    have in_ss: "ss ! i \<in> set ss"
      using i lss by simp
    with cnt have c: "length (sim_particles (ss ! i)) = length masses" by blast
    have "cells ?res (i, j, k) =
        Some (state_vector (sim_particles (map (perm_sim \<sigma>) ss ! i) ! j) ! k)"
      using i j k lss by (intro cells_put_steps) (simp_all add: perm_sim_def length_permute l)
    also have "sim_particles (map (perm_sim \<sigma>) ss ! i) ! j = sim_particles (ss ! i) ! (\<sigma> ! j)"
      using i j lss by (simp add: perm_sim_def nth_permute l)
    also have "Some (state_vector (sim_particles (ss ! i) ! (\<sigma> ! j)) ! k) =
        cells res (i, \<sigma> ! j, k)"
      using cell [OF i is_perm_nth_less [OF assms(2) j] k] by simp
    finally show ?thesis .
  qed
  with sim0 ss rows cell ev sh show ?thesis by blast
qed

theorem secondaries_permutation_equivariance_witness:
  "well_shaped [1, 2, 4] [[0, 0, 0, 1, 0, 0], [1, 0, 0, 0, 1, 0], [0, 3, 0, 0, 0, 1]] \<and>
   is_perm [0, 2, 1] 3 \<and> keeps_count free_drift \<and> equivariant free_drift \<and>
   (\<exists>res res'.
      evaluate free_drift [1, 2, 4] [[0, 0, 0, 1, 0, 0], [1, 0, 0, 0, 1, 0], [0, 3, 0, 0, 0, 1]] [2] =
        Inr res \<and>
      evaluate free_drift [1, 4, 2] [[0, 0, 0, 1, 0, 0], [0, 3, 0, 0, 0, 1], [1, 0, 0, 0, 1, 0]] [2] =
        Inr res' \<and>
      cells res' (0, 1, 2) = cells res (0, 2, 2) \<and> cells res' (0, 2, 1) = cells res (0, 1, 1))"
proof -
  let ?masses = "[1, 2, 4] :: real list"
  let ?coords = "[[0, 0, 0, 1, 0, 0], [1, 0, 0, 0, 1, 0], [0, 3, 0, 0, 0, 1]] :: real list list"
  let ?\<sigma> = "[0, 2, 1] :: nat list"
  have ws: "well_shaped ?masses ?coords"
    by (simp add: well_shaped_def)
  have p: "is_perm ?\<sigma> (length ?masses)"
    by (auto simp: is_perm_def)
  have z: "?\<sigma> ! 0 = 0" by simp
  have "\<exists>res. evaluate free_drift ?masses ?coords [2] = Inr res"
    by (simp add: run_defs upt_conv_Cons)
  then obtain res where res: "evaluate free_drift ?masses ?coords [2] = Inr res" ..
  from secondaries_permutation_equivariance
    [OF ws p z keeps_count_free_drift equivariant_free_drift res]
  obtain res' where res': "evaluate free_drift (permute ?\<sigma> ?masses) (permute ?\<sigma> ?coords) [2] = Inr res'"
    and c: "\<forall>i<length [2 :: real]. \<forall>j<length ?masses. \<forall>k<6.
      cells res' (i, j, k) = cells res (i, ?\<sigma> ! j, k)"
    by blast
  from c have "cells res' (0, 1, 2) = cells res (0, 2, 2)" "cells res' (0, 2, 1) = cells res (0, 1, 1)"
    by simp_all
  moreover from res' have "evaluate free_drift [1, 4, 2]
      [[0, 0, 0, 1, 0, 0], [0, 3, 0, 0, 0, 1], [1, 0, 0, 0, 1, 0]] [2] = Inr res'"
    by (simp add: permute_def)
  moreover have "is_perm ?\<sigma> 3"
    by (auto simp: is_perm_def)
  ultimately show ?thesis
    using ws keeps_count_free_drift equivariant_free_drift res by blast
qed

end
